theory Spec2Isabelle
  imports Complex_Main "HOL-Library.AList"
begin

section \<open>The tarot interpretation engine (client/src/lib/tarotEngine.ts)\<close>

text \<open>
  A shallow embedding of the interpretation engine and of the dealer.  Strings are
  \<^typ>\<open>string\<close>; the position numbers of a spread are integers (the data model of the
  repository numbers positions with integers); counts are natural numbers.  A JavaScript
  \<^verbatim>\<open>Map\<close> that is only read by key is a partial function; the two tallies, whose
  insertion order is observable through \<^verbatim>\<open>entries()\<close>, are association lists in
  insertion order.  A thrown error is the left summand of the result.
\<close>

subsection \<open>Data model (client/src/types/tarot.ts)\<close>

datatype Arcana = Major | Minor

datatype Orientation = Upright | Reversed

datatype ReversalMode = Soft | Strong

text \<open>
  The fields of the interfaces keep their names, prefixed where two interfaces share a
  field name: \<^verbatim>\<open>TarotCard.id\<close> is \<open>card_id\<close>, \<^verbatim>\<open>SpreadPosition.index\<close> is
  \<open>pos_index\<close>, and so on; the \<^verbatim>\<open>keywords\<close> of the result are \<open>keywords_top\<close>.
\<close>

record TarotCard =
  card_id :: string
  card_name :: string
  arcana :: Arcana
  suit :: "string option"
  card_number :: "int option"
  card_keywords :: "string list"
  uprightShort :: string
  uprightLong :: string
  reversedShort :: string
  reversedLong :: string
  imageUrl :: "string option"

record SpreadPosition =
  pos_index :: int
  pos_name :: string
  roleHint :: string
  pos_x :: "int option"
  pos_y :: "int option"

record TarotSpread =
  spread_id :: string
  spread_name :: string
  description :: "string option"
  spread_positions :: "SpreadPosition list"

record PlacedCard =
  cardId :: string
  orientation :: Orientation
  position :: int

record PositionEntry =
  slotName :: string
  entry_cardId :: string
  entry_orientation :: Orientation
  interpretationShort :: string
  interpretationLong :: string

record InterpretationResult =
  positions :: "PositionEntry list"
  overallSummary :: string
  keywords_top :: "string list"
  confidenceHints :: "string list"
  suggestedActions :: "string list"
  dominantSuit :: "string option"
  majorArcanaCount :: nat
  reversedCount :: nat

record CombinationRule =
  rule_id :: string
  rule_name :: string
  rule_cardIds :: "string list"
  rule_condition :: string
  rule_modifier :: string
  rule_weight :: int
  isActive :: bool

record InterpretationOptions =
  reversalMode :: "ReversalMode option"

datatype error = CardNotFound string | PositionNotFound int | TypeError

subsection \<open>Text helpers\<close>

text \<open>The text of an orientation, as a template literal prints it.\<close>

fun orientation_text :: "Orientation \<Rightarrow> string" where
  "orientation_text Upright = ''upright''"
| "orientation_text Reversed = ''reversed''"

text \<open>The em dash of the templates, as its three UTF-8 bytes.\<close>

definition em_dash :: string where
  "em_dash = [CHR 0xE2, CHR 0x80, CHR 0x94]"

text \<open>\<^verbatim>\<open>toLowerCase\<close> on the ASCII letters; other bytes are left as they are.\<close>

definition lower_char :: "char \<Rightarrow> char" where
  "lower_char c =
     (let n = of_char c :: nat in if 65 \<le> n \<and> n \<le> 90 then char_of (n + 32) else c)"

definition toLowerCase :: "string \<Rightarrow> string" where
  "toLowerCase s = map lower_char s"

text \<open>A natural number printed in decimal, as a template literal prints a count.\<close>

fun digits_of :: "nat \<Rightarrow> string" where
  "digits_of n =
     (if n < 10 then [char_of (48 + n)] else digits_of (n div 10) @ [char_of (48 + n mod 10)])"

declare digits_of.simps [simp del]

text \<open>\<^verbatim>\<open>Array.prototype.join\<close>.\<close>

fun join :: "string \<Rightarrow> string list \<Rightarrow> string" where
  "join sep [] = []"
| "join sep [x] = x"
| "join sep (x # y # ys) = x @ sep @ join sep (y # ys)"

subsection \<open>Base interpretation, position modifier\<close>

text \<open>
  Line 24, \<^verbatim>\<open>options?.reversalMode || "soft"\<close>: the mode is soft when the options or
  their mode are absent.
\<close>

definition reversalMode_of :: "InterpretationOptions option \<Rightarrow> ReversalMode" where
  "reversalMode_of options =
     (case options of
        None \<Rightarrow> Soft
      | Some opts \<Rightarrow> (case reversalMode opts of None \<Rightarrow> Soft | Some m \<Rightarrow> m))"

fun getBaseInterpretation :: "TarotCard \<Rightarrow> Orientation \<Rightarrow> ReversalMode \<Rightarrow> string \<times> string" where
  "getBaseInterpretation tc Upright mode = (uprightShort tc, uprightLong tc)"
| "getBaseInterpretation tc Reversed Strong = (reversedShort tc, reversedLong tc)"
| "getBaseInterpretation tc Reversed Soft =
     (reversedShort tc @ '' (blocked or internal)'',
      reversedLong tc @ '' The energy of '' @ card_name tc @
        '' is present but may be blocked, internalized, or manifesting in a subtle way.'')"

definition getPositionModifier :: "SpreadPosition \<Rightarrow> TarotCard \<Rightarrow> Orientation \<Rightarrow> string" where
  "getPositionModifier pos tc orient =
     (let hint = (if roleHint pos = [] then [] else roleHint pos);
          orientationNote =
            (if orient = Reversed then ''internal or blocked'' else ''manifesting externally'')
      in ''As '' @ toLowerCase (pos_name pos) @ '', this energy is '' @ orientationNote @
         '' and suggests '' @ toLowerCase hint @ ''.'')"

subsection \<open>Adjacency\<close>

definition getAdjacentCards :: "PlacedCard list \<Rightarrow> PlacedCard \<Rightarrow> TarotSpread \<Rightarrow> PlacedCard list" where
  "getAdjacentCards placedCards currentCard spread =
     filter (\<lambda>pc. cardId pc \<noteq> cardId currentCard \<and>
                     \<bar>position pc - position currentCard\<bar> \<le> 1) placedCards"

definition getSuitTheme :: "string \<Rightarrow> string" where
  "getSuitTheme s =
     (if s = ''wands'' then ''passion, creativity, and spiritual growth''
      else if s = ''cups'' then ''emotions, relationships, and intuition''
      else if s = ''swords'' then ''thoughts, communication, and challenges''
      else if s = ''pentacles'' then ''material matters, work, and practical concerns''
      else ''spiritual and life path themes'')"

text \<open>
  A suit counts as present where the code tests \<^verbatim>\<open>card.suit\<close> for truth: the field is
  there and is not the empty string.
\<close>

definition truthy_suit :: "TarotCard \<Rightarrow> string option" where
  "truthy_suit tc = (case suit tc of None \<Rightarrow> None | Some s \<Rightarrow> if s = [] then None else Some s)"

definition getAdjacencyInfluence ::
  "PlacedCard list \<Rightarrow> PlacedCard \<Rightarrow> (string \<rightharpoonup> TarotCard) \<Rightarrow> TarotSpread \<Rightarrow> string" where
  "getAdjacencyInfluence placedCards currentCard cardMap spread =
     (let adjacentCards = getAdjacentCards placedCards currentCard spread;
          suitInfluence =
            (case cardMap (cardId currentCard) of
               None \<Rightarrow> []
             | Some currentCardData \<Rightarrow>
                 (case truthy_suit currentCardData of
                    None \<Rightarrow> []
                  | Some s \<Rightarrow>
                      (let sameSuitCount = length (filter (\<lambda>adj.
                             (case cardMap (cardId adj) of
                                None \<Rightarrow> False
                              | Some adjCard \<Rightarrow> suit adjCard = Some s)) adjacentCards)
                       in if 2 \<le> sameSuitCount
                          then [''Strong '' @ s @ '' influence emphasizes '' @ getSuitTheme s @ ''.'']
                          else [])));
          majorCount = length (filter (\<lambda>adj.
             (case cardMap (cardId adj) of
                None \<Rightarrow> False
              | Some adjCard \<Rightarrow> arcana adjCard = Major)) adjacentCards);
          majorInfluence =
            (if 2 \<le> majorCount
             then [''Multiple Major Arcana nearby indicate significant life themes and spiritual lessons.'']
             else []);
          reversedCnt = length (filter (\<lambda>adj. orientation adj = Reversed) adjacentCards);
          reversedInfluence =
            (if 2 \<le> reversedCnt
             then [''Surrounded by reversed cards suggests internal work or blocked energies.'']
             else [])
      in join '' '' (suitInfluence @ majorInfluence @ reversedInfluence))"

subsection \<open>Composing the texts of one position\<close>

definition composeShortInterpretation ::
  "SpreadPosition \<Rightarrow> TarotCard \<Rightarrow> Orientation \<Rightarrow> string \<Rightarrow> string \<Rightarrow> string" where
  "composeShortInterpretation pos tc orient baseShort positionModifier =
     pos_name pos @ '': '' @ card_name tc @ '' ('' @ orientation_text orient @ '') '' @
     em_dash @ '' '' @ baseShort"

definition composeLongInterpretation ::
  "SpreadPosition \<Rightarrow> TarotCard \<Rightarrow> Orientation \<Rightarrow> string \<Rightarrow> string \<Rightarrow> string \<Rightarrow> string" where
  "composeLongInterpretation pos tc orient baseLong positionModifier adjacencyNotes =
     (let i0 = card_name tc @ '' in '' @ pos_name pos @ '' ('' @ orientation_text orient @
               '') '' @ em_dash @ '' '' @ baseLong;
          i1 = (if positionModifier \<noteq> [] then i0 @ '' '' @ positionModifier else i0);
          i2 = (if adjacencyNotes \<noteq> [] then i1 @ '' '' @ adjacencyNotes else i1)
      in i2)"

subsection \<open>Overall analysis\<close>

text \<open>
  \<^verbatim>\<open>Array.prototype.sort\<close> with a comparator: a stable sort, modelled as the stable
  insertion sort.  An element is put before the first element that the comparator does not
  order before it, and the elements are inserted from the last to the first, so that
  elements that compare equal keep their order.
\<close>

fun insert_by :: "('a \<Rightarrow> 'a \<Rightarrow> int) \<Rightarrow> 'a \<Rightarrow> 'a list \<Rightarrow> 'a list" where
  "insert_by cmp x [] = [x]"
| "insert_by cmp x (y # ys) = (if cmp x y \<le> 0 then x # y # ys else y # insert_by cmp x ys)"

definition js_sort :: "('a \<Rightarrow> 'a \<Rightarrow> int) \<Rightarrow> 'a list \<Rightarrow> 'a list" where
  "js_sort cmp xs = foldr (insert_by cmp) xs []"

text \<open>The comparator \<^verbatim>\<open>([,a], [,b]) => b - a\<close> on the entries of a tally.\<close>

definition by_count_desc :: "string \<times> nat \<Rightarrow> string \<times> nat \<Rightarrow> int" where
  "by_count_desc p q = int (snd q) - int (snd p)"

text \<open>
  \<^verbatim>\<open>m.set(k, (m.get(k) || 0) + 1)\<close> on a \<^verbatim>\<open>Map\<close> kept in insertion order: a key
  that is already there keeps its place.
\<close>

definition bump :: "(string \<times> nat) list \<Rightarrow> string \<Rightarrow> (string \<times> nat) list" where
  "bump m k = AList.update k ((case map_of m k of None \<Rightarrow> 0 | Some n \<Rightarrow> n) + 1) m"

definition generateSummary :: "nat \<Rightarrow> string option \<Rightarrow> nat \<Rightarrow> nat \<Rightarrow> string" where
  "generateSummary majorCount domSuit reversedCnt totalCards =
     (let s1 = (if 3 \<le> majorCount
                then ''This reading reveals significant life changes and spiritual themes. ''
                else if 1 \<le> majorCount
                then ''Important life lessons and personal growth are highlighted. ''
                else []);
          s2 = (case domSuit of
                  None \<Rightarrow> []
                | Some s \<Rightarrow> if s = [] then []
                            else ''The focus is on '' @ getSuitTheme s @ ''. '');
          s3 = (if reversedCnt \<noteq> 0 \<and> totalCards \<noteq> 0 \<and>
                   real totalCards / 2 \<le> real reversedCnt
                then ''Many reversed cards suggest internal work and reflection are needed. ''
                else [])
      in s1 @ s2 @ s3 @
         ''Trust your intuition as you interpret these messages for your path forward.'')"

definition generateConfidenceHints :: "nat \<Rightarrow> string option \<Rightarrow> nat \<Rightarrow> string list" where
  "generateConfidenceHints majorCount domSuit reversedCnt =
     (let h1 = (if 3 \<le> majorCount
                then [digits_of majorCount @ '' Major Arcana cards detected '' @ em_dash @
                      '' reading focuses on significant life themes'']
                else []);
          h2 = (case domSuit of
                  None \<Rightarrow> []
                | Some s \<Rightarrow> if s = [] then []
                            else [''Dominant suit: '' @ s @ '' '' @ em_dash @
                                  '' interpretation emphasizes '' @ getSuitTheme s]);
          h3 = (if reversedCnt \<noteq> 0 \<and> 3 \<le> reversedCnt
                then [digits_of reversedCnt @
                      '' reversed cards suggest internal processing or blocked energies'']
                else [])
      in h1 @ h2 @ h3)"

definition generateSuggestedActions :: "nat \<Rightarrow> string option \<Rightarrow> string list \<Rightarrow> string list" where
  "generateSuggestedActions majorCount domSuit kws =
     (let a1 = (if 2 \<le> majorCount
                then [''Pay attention to synchronicities and signs in your daily life'']
                else []);
          a2 = (if domSuit = Some ''cups''
                then [''Focus on emotional healing and nurturing relationships'']
                else if domSuit = Some ''wands''
                then [''Take inspired action on creative projects and passions'']
                else if domSuit = Some ''swords''
                then [''Practice clear communication and mental clarity'']
                else if domSuit = Some ''pentacles''
                then [''Focus on practical matters and building stable foundations'']
                else []);
          a3 = (if ''balance'' \<in> set kws
                then [''Seek balance and moderation in all areas of life'']
                else []);
          a4 = (if ''transformation'' \<in> set kws
                then [''Embrace change as an opportunity for growth'']
                else [])
      in take 3 (a1 @ a2 @ a3 @ a4))"

record Analysis =
  an_summary :: string
  an_keywords :: "string list"
  an_confidenceHints :: "string list"
  an_suggestedActions :: "string list"
  an_dominantSuit :: "string option"
  an_majorArcanaCount :: nat
  an_reversedCount :: nat

text \<open>The cards of the placed cards that the catalog resolves, in the order placed.\<close>

definition resolvedCards :: "PlacedCard list \<Rightarrow> (string \<rightharpoonup> TarotCard) \<Rightarrow> TarotCard list" where
  "resolvedCards placedCards cardMap = List.map_filter (\<lambda>pc. cardMap (cardId pc)) placedCards"

definition suitCounts :: "TarotCard list \<Rightarrow> (string \<times> nat) list" where
  "suitCounts cards =
     foldl (\<lambda>m tc. case truthy_suit tc of None \<Rightarrow> m | Some s \<Rightarrow> bump m s) [] cards"

definition keywordCounts :: "string list \<Rightarrow> (string \<times> nat) list" where
  "keywordCounts allKeywords = foldl bump [] allKeywords"

definition generateOverallAnalysis ::
  "PlacedCard list \<Rightarrow> (string \<rightharpoonup> TarotCard) \<Rightarrow> CombinationRule list \<Rightarrow> Analysis" where
  "generateOverallAnalysis placedCards cardMap combinationRules =
     (let cards = resolvedCards placedCards cardMap;
          majorCnt = length (filter (\<lambda>c. arcana c = Major) cards);
          reversedCnt = length (filter (\<lambda>pc. orientation pc = Reversed) placedCards);
          domSuit = (case js_sort by_count_desc (suitCounts cards) of
                       [] \<Rightarrow> None
                     | e # _ \<Rightarrow> Some (fst e));
          allKeywords = concat (map card_keywords cards);
          topKeywords = map fst (take 5 (js_sort by_count_desc (keywordCounts allKeywords)))
      in \<lparr> an_summary = generateSummary majorCnt domSuit reversedCnt (length placedCards),
           an_keywords = topKeywords,
           an_confidenceHints = generateConfidenceHints majorCnt domSuit reversedCnt,
           an_suggestedActions = generateSuggestedActions majorCnt domSuit topKeywords,
           an_dominantSuit = domSuit,
           an_majorArcanaCount = majorCnt,
           an_reversedCount = reversedCnt \<rparr>)"

subsection \<open>interpretReading\<close>

text \<open>\<^verbatim>\<open>new Map(allCards.map(c => [c.id, c]))\<close>: a later card with the same id wins.\<close>

definition buildCardMap :: "TarotCard list \<Rightarrow> (string \<rightharpoonup> TarotCard)" where
  "buildCardMap allCards = foldl (\<lambda>m c. m(card_id c \<mapsto> c)) Map.empty allCards"

text \<open>The callback of \<^verbatim>\<open>placedCards.map\<close> (lines 27 to 45), with its two throws.\<close>

definition interpretPosition ::
  "TarotSpread \<Rightarrow> PlacedCard list \<Rightarrow> (string \<rightharpoonup> TarotCard) \<Rightarrow> ReversalMode \<Rightarrow> PlacedCard
     \<Rightarrow> error + PositionEntry" where
  "interpretPosition spread placedCards cardMap mode placedCard =
     (case cardMap (cardId placedCard) of
        None \<Rightarrow> Inl (CardNotFound (cardId placedCard))
      | Some tc \<Rightarrow>
          (case find (\<lambda>p. pos_index p = position placedCard) (spread_positions spread) of
             None \<Rightarrow> Inl (PositionNotFound (position placedCard))
           | Some pos \<Rightarrow>
               (let baseInterpretation = getBaseInterpretation tc (orientation placedCard) mode;
                    positionModifier = getPositionModifier pos tc (orientation placedCard);
                    adjacencyNotes = getAdjacencyInfluence placedCards placedCard cardMap spread
                in Inr \<lparr> slotName = pos_name pos,
                         entry_cardId = card_id tc,
                         entry_orientation = orientation placedCard,
                         interpretationShort =
                           composeShortInterpretation pos tc (orientation placedCard)
                             (fst baseInterpretation) positionModifier,
                         interpretationLong =
                           composeLongInterpretation pos tc (orientation placedCard)
                             (snd baseInterpretation) positionModifier adjacencyNotes \<rparr>)))"

text \<open>\<^verbatim>\<open>Array.prototype.map\<close> with a callback that may throw: the first throw ends it.\<close>

fun map_throwing :: "('a \<Rightarrow> error + 'b) \<Rightarrow> 'a list \<Rightarrow> error + 'b list" where
  "map_throwing f [] = Inr []"
| "map_throwing f (x # xs) =
     (case f x of
        Inl e \<Rightarrow> Inl e
      | Inr y \<Rightarrow> (case map_throwing f xs of Inl e \<Rightarrow> Inl e | Inr ys \<Rightarrow> Inr (y # ys)))"

definition interpretReading ::
  "TarotSpread \<Rightarrow> PlacedCard list \<Rightarrow> TarotCard list \<Rightarrow> CombinationRule list
     \<Rightarrow> InterpretationOptions option \<Rightarrow> error + InterpretationResult" where
  "interpretReading spread placedCards allCards combinationRules options =
     (let cardMap = buildCardMap allCards;
          mode = reversalMode_of options
      in case map_throwing (interpretPosition spread placedCards cardMap mode) placedCards of
           Inl e \<Rightarrow> Inl e
         | Inr ps \<Rightarrow>
             (let analysis = generateOverallAnalysis placedCards cardMap combinationRules
              in Inr \<lparr> positions = ps,
                       overallSummary = an_summary analysis,
                       keywords_top = an_keywords analysis,
                       confidenceHints = an_confidenceHints analysis,
                       suggestedActions = an_suggestedActions analysis,
                       dominantSuit = an_dominantSuit analysis,
                       majorArcanaCount = an_majorArcanaCount analysis,
                       reversedCount = an_reversedCount analysis \<rparr>))"

subsection \<open>dealCards\<close>

text \<open>
  The callback of \<^verbatim>\<open>spread.positions.slice(0, shuffledCards.length).map\<close>, run from
  offset \<open>i\<close> on.  The draws of \<^verbatim>\<open>Math.random()\<close> are a parameter: \<open>rnd i\<close> is the draw
  made for the entry at offset \<open>i\<close>.  Reading \<^verbatim>\<open>.id\<close> of a missing
  \<^verbatim>\<open>shuffledCards[index]\<close> would throw a TypeError.
\<close>

fun dealFrom :: "(nat \<Rightarrow> real) \<Rightarrow> TarotCard list \<Rightarrow> nat \<Rightarrow> SpreadPosition list
    \<Rightarrow> error + PlacedCard list" where
  "dealFrom rnd shuffledCards i [] = Inr []"
| "dealFrom rnd shuffledCards i (p # ps) =
     (if i < length shuffledCards
      then (case dealFrom rnd shuffledCards (Suc i) ps of
              Inl e \<Rightarrow> Inl e
            | Inr rest \<Rightarrow>
                Inr (\<lparr> cardId = card_id (shuffledCards ! i),
                       orientation = (if 7 / 10 < rnd i then Reversed else Upright),
                       position = pos_index p \<rparr> # rest))
      else Inl TypeError)"

definition dealCards :: "(nat \<Rightarrow> real) \<Rightarrow> TarotCard list \<Rightarrow> TarotSpread \<Rightarrow> error + PlacedCard list" where
  "dealCards rnd shuffledCards spread =
     dealFrom rnd shuffledCards 0 (take (length shuffledCards) (spread_positions spread))"

subsection \<open>Notions used to state the properties\<close>

text \<open>The offset at which a key is first met in a list (the length of the list if never).\<close>

fun first_index :: "'a list \<Rightarrow> 'a \<Rightarrow> nat" where
  "first_index [] k = 0"
| "first_index (x # xs) k = (if x = k then 0 else Suc (first_index xs k))"

text \<open>
  \<open>a\<close> ranks before \<open>b\<close> in a tally of \<open>xs\<close>: it occurs more often, or as often and
  is met first.
\<close>

definition ranks_before :: "string list \<Rightarrow> string \<Rightarrow> string \<Rightarrow> bool" where
  "ranks_before xs a b \<longleftrightarrow>
     count_list xs b < count_list xs a \<or>
     (count_list xs a = count_list xs b \<and> first_index xs a < first_index xs b)"

text \<open>The keys of the sorted tally of a list of strings.\<close>

abbreviation ranked :: "string list \<Rightarrow> string list" where
  "ranked xs \<equiv> map fst (js_sort by_count_desc (foldl bump [] xs))"

text \<open>
  The summary as section 4.1 of the specification words it: the clause on reversed cards
  is triggered by the comparison of the reversed count with half the total alone.
\<close>

definition claimed_summary :: "nat \<Rightarrow> string option \<Rightarrow> nat \<Rightarrow> nat \<Rightarrow> string" where
  "claimed_summary majorCount domSuit reversedCnt totalCards =
     (if 3 \<le> majorCount
      then ''This reading reveals significant life changes and spiritual themes. ''
      else if 1 \<le> majorCount
      then ''Important life lessons and personal growth are highlighted. ''
      else []) @
     (case domSuit of None \<Rightarrow> [] | Some s \<Rightarrow> ''The focus is on '' @ getSuitTheme s @ ''. '') @
     (if real totalCards / 2 \<le> real reversedCnt
      then ''Many reversed cards suggest internal work and reflection are needed. ''
      else []) @
     ''Trust your intuition as you interpret these messages for your path forward.''"

subsection \<open>Example inputs\<close>

definition ex_fool :: TarotCard where
  "ex_fool = \<lparr> card_id = ''major-0'', card_name = ''The Fool'', arcana = Major, suit = None,
     card_number = Some 0, card_keywords = [''beginnings'', ''freedom''],
     uprightShort = ''New beginnings.'', uprightLong = ''A leap of faith.'',
     reversedShort = ''Recklessness.'', reversedLong = ''Poor judgment.'', imageUrl = None \<rparr>"

definition ex_cups2 :: TarotCard where
  "ex_cups2 = \<lparr> card_id = ''cups-2'', card_name = ''Two of Cups'', arcana = Minor,
     suit = Some ''cups'', card_number = Some 2, card_keywords = [''love'', ''freedom''],
     uprightShort = ''Union.'', uprightLong = ''A bond forms.'',
     reversedShort = ''Imbalance.'', reversedLong = ''A bond strains.'', imageUrl = None \<rparr>"

definition ex_wands3 :: TarotCard where
  "ex_wands3 = \<lparr> card_id = ''wands-3'', card_name = ''Three of Wands'', arcana = Minor,
     suit = Some ''wands'', card_number = Some 3, card_keywords = [''love'', ''travel''],
     uprightShort = ''Expansion.'', uprightLong = ''Ships come in.'',
     reversedShort = ''Delay.'', reversedLong = ''Plans stall.'', imageUrl = None \<rparr>"

definition ex_cards :: "TarotCard list" where
  "ex_cards = [ex_fool, ex_cups2, ex_wands3]"

definition ex_spread :: TarotSpread where
  "ex_spread = \<lparr> spread_id = ''three-card'', spread_name = ''Three Card'', description = None,
     spread_positions =
       [\<lparr> pos_index = 0, pos_name = ''Past'', roleHint = ''what was'', pos_x = None, pos_y = None \<rparr>,
        \<lparr> pos_index = 1, pos_name = ''Present'', roleHint = ''what is'', pos_x = None, pos_y = None \<rparr>,
        \<lparr> pos_index = 2, pos_name = ''Future'', roleHint = ''what comes'', pos_x = None, pos_y = None \<rparr>] \<rparr>"

definition ex_placed :: "PlacedCard list" where
  "ex_placed = [\<lparr> cardId = ''wands-3'', orientation = Reversed, position = 1 \<rparr>,
                \<lparr> cardId = ''cups-2'', orientation = Upright, position = 0 \<rparr>]"

definition ex_unknown_card :: "PlacedCard list" where
  "ex_unknown_card = [\<lparr> cardId = ''swords-9'', orientation = Upright, position = 0 \<rparr>]"

definition ex_two_cards :: "TarotCard list" where
  "ex_two_cards = [ex_fool, ex_cups2]"

definition ex_dup_first :: PlacedCard where
  "ex_dup_first = \<lparr> cardId = ''cups-2'', orientation = Upright, position = 0 \<rparr>"

definition ex_dup_second :: PlacedCard where
  "ex_dup_second = \<lparr> cardId = ''cups-2'', orientation = Reversed, position = 1 \<rparr>"

definition ex_dup_third :: PlacedCard where
  "ex_dup_third = \<lparr> cardId = ''cups-2'', orientation = Reversed, position = 2 \<rparr>"

definition ex_dup_placed :: "PlacedCard list" where
  "ex_dup_placed = [ex_dup_first, ex_dup_second, ex_dup_third]"

definition ex_empty_result :: InterpretationResult where
  "ex_empty_result =
     \<lparr> positions = [],
       overallSummary =
         ''Trust your intuition as you interpret these messages for your path forward.'',
       keywords_top = [], confidenceHints = [], suggestedActions = [],
       dominantSuit = None, majorArcanaCount = 0, reversedCount = 0 \<rparr>"

lemmas ex_defs = ex_fool_def ex_cups2_def ex_wands3_def ex_cards_def ex_spread_def ex_placed_def
  ex_unknown_card_def

section \<open>Properties\<close>

subsection \<open>The card map, the mapping callback\<close>

lemma buildCardMap_foldl:
  "foldl (\<lambda>m c. m(card_id c \<mapsto> c)) m0 cs k = None \<longleftrightarrow> m0 k = None \<and> k \<notin> card_id ` set cs"
  by (induction cs arbitrary: m0) auto

lemma buildCardMap_None: "buildCardMap cs k = None \<longleftrightarrow> k \<notin> card_id ` set cs"
  by (simp add: buildCardMap_def buildCardMap_foldl)

lemma buildCardMap_foldl_Some:
  "foldl (\<lambda>m c. m(card_id c \<mapsto> c)) m0 cs k = Some c \<Longrightarrow>
     (m0 k = Some c) \<or> (card_id c = k \<and> c \<in> set cs)"
proof (induction cs arbitrary: m0)
  case Nil
  then show ?case by simp
next
  case (Cons a cs)
  from Cons.prems have "foldl (\<lambda>m c. m(card_id c \<mapsto> c)) (m0(card_id a \<mapsto> a)) cs k = Some c"
    by (simp only: foldl_Cons)
  from Cons.IH [OF this] show ?case
    by (auto split: if_splits)
qed

lemma buildCardMap_Some: "buildCardMap cs k = Some c \<Longrightarrow> card_id c = k \<and> c \<in> set cs"
  using buildCardMap_foldl_Some [of Map.empty cs k c] by (simp add: buildCardMap_def)

lemma map_throwing_Inr:
  "(\<forall>x\<in>set xs. \<exists>y. f x = Inr y) \<Longrightarrow>
   \<exists>ys. map_throwing f xs = Inr ys \<and> length ys = length xs \<and>
        (\<forall>i<length xs. f (xs ! i) = Inr (ys ! i))"
proof (induction xs)
  case Nil
  then show ?case by simp
next
  case (Cons x xs)
  then obtain y where y: "f x = Inr y" by auto
  from Cons obtain ys where ys: "map_throwing f xs = Inr ys" "length ys = length xs"
      "\<forall>i<length xs. f (xs ! i) = Inr (ys ! i)" by auto
  have "\<forall>i<length (x # xs). f ((x # xs) ! i) = Inr ((y # ys) ! i)"
    using y ys(3) by (auto simp: nth_Cons split: nat.splits)
  with y ys show ?case by simp
qed

lemma map_throwing_Inl_iff:
  "(\<exists>e. map_throwing f xs = Inl e) \<longleftrightarrow> (\<exists>x\<in>set xs. \<exists>e. f x = Inl e)"
  by (induction xs) (auto split: sum.splits)

lemma interpretPosition_Inl_iff:
  "(\<exists>e. interpretPosition spread pcs cm mode pc = Inl e) \<longleftrightarrow>
     cm (cardId pc) = None \<or>
     find (\<lambda>p. pos_index p = position pc) (spread_positions spread) = None"
  by (auto simp: interpretPosition_def Let_def split: option.splits)

lemma find_None_index:
  "find (\<lambda>p. pos_index p = n) ps = None \<longleftrightarrow> n \<notin> pos_index ` set ps"
  by (auto simp: find_None_iff)

lemma interpretPosition_Inr:
  assumes "interpretPosition spread pcs cm mode pc = Inr e"
  shows "\<exists>tc pos. cm (cardId pc) = Some tc \<and>
           find (\<lambda>p. pos_index p = position pc) (spread_positions spread) = Some pos \<and>
           slotName e = pos_name pos \<and> entry_cardId e = card_id tc \<and>
           entry_orientation e = orientation pc"
  using assms by (auto simp: interpretPosition_def Let_def split: option.splits)

lemma resolving_entries_succeed:
  assumes "cardId pc \<in> card_id ` set allCards"
      and "position pc \<in> pos_index ` set (spread_positions spread)"
  shows "\<exists>y. interpretPosition spread pcs (buildCardMap allCards) mode pc = Inr y"
proof -
  have "\<not> (\<exists>e. interpretPosition spread pcs (buildCardMap allCards) mode pc = Inl e)"
    using assms by (simp add: interpretPosition_Inl_iff buildCardMap_None find_None_index)
  then show ?thesis
    by (cases "interpretPosition spread pcs (buildCardMap allCards) mode pc") auto
qed

lemma interpretReading_Inl_iff:
  "(\<exists>e. interpretReading spread pcs allCards rules options = Inl e) \<longleftrightarrow>
   (\<exists>e. map_throwing (interpretPosition spread pcs (buildCardMap allCards)
          (reversalMode_of options)) pcs = Inl e)"
  by (auto simp: interpretReading_def Let_def split: sum.splits)

lemma interpretReading_Inr:
  assumes "interpretReading spread pcs allCards rules options = Inr r"
  shows "map_throwing (interpretPosition spread pcs (buildCardMap allCards)
           (reversalMode_of options)) pcs = Inr (positions r)"
    and "overallSummary r = an_summary (generateOverallAnalysis pcs (buildCardMap allCards) rules)"
    and "keywords_top r = an_keywords (generateOverallAnalysis pcs (buildCardMap allCards) rules)"
    and "dominantSuit r =
           an_dominantSuit (generateOverallAnalysis pcs (buildCardMap allCards) rules)"
    and "majorArcanaCount r =
           an_majorArcanaCount (generateOverallAnalysis pcs (buildCardMap allCards) rules)"
    and "reversedCount r =
           an_reversedCount (generateOverallAnalysis pcs (buildCardMap allCards) rules)"
  using assms by (auto simp: interpretReading_def Let_def split: sum.splits)

subsection \<open>The analysis of an empty reading\<close>

lemma generateSummary_empty:
  "generateSummary 0 None 0 0 =
     ''Trust your intuition as you interpret these messages for your path forward.''"
  by (simp add: generateSummary_def)

lemma generateConfidenceHints_empty: "generateConfidenceHints 0 None 0 = []"
  by (simp add: generateConfidenceHints_def)

lemma generateSuggestedActions_empty: "generateSuggestedActions 0 None [] = []"
  by (simp add: generateSuggestedActions_def)

lemma generateOverallAnalysis_empty:
  "generateOverallAnalysis [] cm rules =
     \<lparr> an_summary =
         ''Trust your intuition as you interpret these messages for your path forward.'',
       an_keywords = [], an_confidenceHints = [], an_suggestedActions = [],
       an_dominantSuit = None, an_majorArcanaCount = 0, an_reversedCount = 0 \<rparr>"
  by (simp add: generateOverallAnalysis_def resolvedCards_def
      suitCounts_def keywordCounts_def js_sort_def generateSummary_empty
      generateConfidenceHints_empty generateSuggestedActions_empty)

subsection \<open>The positions of a reading\<close>

text \<open>
  Claim C1.  When every placed card names a card of the catalog and a position index of
  the spread, \<open>interpretReading\<close> returns a result whose \<open>positions\<close> has one entry for
  each placed card, in the order placed: entry \<open>i\<close> carries the card id and the
  orientation of placed card \<open>i\<close>, and its slot name is the name of the spread position
  with the index of placed card \<open>i\<close> (the first such position of the spread).
\<close>

theorem interpretReading_positions:
  assumes "\<forall>pc\<in>set placedCards. cardId pc \<in> card_id ` set allCards \<and>
             position pc \<in> pos_index ` set (spread_positions spread)"
  shows "\<exists>r. interpretReading spread placedCards allCards combinationRules options = Inr r \<and>
           length (positions r) = length placedCards \<and>
           (\<forall>i<length placedCards.
              entry_cardId (positions r ! i) = cardId (placedCards ! i) \<and>
              entry_orientation (positions r ! i) = orientation (placedCards ! i) \<and>
              (\<exists>j<length (spread_positions spread).
                 pos_index (spread_positions spread ! j) = position (placedCards ! i) \<and>
                 (\<forall>k<j. pos_index (spread_positions spread ! k) \<noteq> position (placedCards ! i)) \<and>
                 slotName (positions r ! i) = pos_name (spread_positions spread ! j)))"
proof -
  let ?f = "interpretPosition spread placedCards (buildCardMap allCards) (reversalMode_of options)"
  have "\<forall>pc\<in>set placedCards. \<exists>y. ?f pc = Inr y"
    using assms resolving_entries_succeed by blast
  from map_throwing_Inr [OF this] obtain ys where
    ys: "map_throwing ?f placedCards = Inr ys" "length ys = length placedCards"
        "\<forall>i<length placedCards. ?f (placedCards ! i) = Inr (ys ! i)" by blast
  from ys(1) obtain r where
    r: "interpretReading spread placedCards allCards combinationRules options = Inr r"
       "positions r = ys"
    by (simp add: interpretReading_def Let_def)
  have "entry_cardId (ys ! i) = cardId (placedCards ! i) \<and>
        entry_orientation (ys ! i) = orientation (placedCards ! i) \<and>
        (\<exists>j<length (spread_positions spread).
           pos_index (spread_positions spread ! j) = position (placedCards ! i) \<and>
           (\<forall>k<j. pos_index (spread_positions spread ! k) \<noteq> position (placedCards ! i)) \<and>
           slotName (ys ! i) = pos_name (spread_positions spread ! j))"
    if i: "i < length placedCards" for i
  proof -
    from ys(3) i have "?f (placedCards ! i) = Inr (ys ! i)" by simp
    from interpretPosition_Inr [OF this] obtain tc pos where
      tc: "buildCardMap allCards (cardId (placedCards ! i)) = Some tc" and
      pos: "find (\<lambda>p. pos_index p = position (placedCards ! i)) (spread_positions spread) = Some pos" and
      flds: "slotName (ys ! i) = pos_name pos" "entry_cardId (ys ! i) = card_id tc"
            "entry_orientation (ys ! i) = orientation (placedCards ! i)"
      by blast
    from pos obtain j where j: "j < length (spread_positions spread)"
        "pos_index (spread_positions spread ! j) = position (placedCards ! i)"
        "pos = spread_positions spread ! j"
        "\<forall>k<j. pos_index (spread_positions spread ! k) \<noteq> position (placedCards ! i)"
      unfolding find_Some_iff by blast
    from buildCardMap_Some [OF tc] flds j show ?thesis by auto
  qed
  with r ys(2) show ?thesis by auto
qed

theorem interpretReading_positions_witness:
  "\<exists>r. interpretReading ex_spread ex_placed ex_cards [] None = Inr r \<and>
        length (positions r) = 2 \<and>
        entry_cardId (positions r ! 0) = ''wands-3'' \<and>
        entry_orientation (positions r ! 0) = Reversed \<and>
        entry_cardId (positions r ! 1) = ''cups-2'' \<and>
        entry_orientation (positions r ! 1) = Upright"
proof -
  have h: "\<forall>pc\<in>set ex_placed. cardId pc \<in> card_id ` set ex_cards \<and>
             position pc \<in> pos_index ` set (spread_positions ex_spread)"
    by (simp add: ex_defs)
  from interpretReading_positions [OF h, of "[]" None] obtain r where
    r: "interpretReading ex_spread ex_placed ex_cards [] None = Inr r"
       "length (positions r) = length ex_placed"
       "\<forall>i<length ex_placed.
              entry_cardId (positions r ! i) = cardId (ex_placed ! i) \<and>
              entry_orientation (positions r ! i) = orientation (ex_placed ! i)"
    by blast
  have "length ex_placed = 2" by (simp add: ex_placed_def)
  with r(3) have "entry_cardId (positions r ! 0) = cardId (ex_placed ! 0) \<and>
              entry_orientation (positions r ! 0) = orientation (ex_placed ! 0) \<and>
       entry_cardId (positions r ! 1) = cardId (ex_placed ! 1) \<and>
              entry_orientation (positions r ! 1) = orientation (ex_placed ! 1)"
    by simp
  then have "entry_cardId (positions r ! 0) = ''wands-3'' \<and>
        entry_orientation (positions r ! 0) = Reversed \<and>
        entry_cardId (positions r ! 1) = ''cups-2'' \<and>
        entry_orientation (positions r ! 1) = Upright"
    by (simp add: ex_placed_def)
  with r(1,2) \<open>length ex_placed = 2\<close> show ?thesis by auto
qed

text \<open>
  Claim C2.  \<open>interpretReading\<close> fails exactly when some placed card names a card id
  absent from the catalog or a position that is the index of no spread position; a call
  fails exactly when it yields no result, so that there is never a partial result, and a
  call in which every entry resolves does not fail.
\<close>

theorem interpretReading_fails_iff:
  "((\<exists>e. interpretReading spread placedCards allCards combinationRules options = Inl e) \<longleftrightarrow>
      (\<exists>pc\<in>set placedCards. cardId pc \<notin> card_id ` set allCards \<or>
          position pc \<notin> pos_index ` set (spread_positions spread))) \<and>
   ((\<exists>e. interpretReading spread placedCards allCards combinationRules options = Inl e) \<longleftrightarrow>
      \<not> (\<exists>r. interpretReading spread placedCards allCards combinationRules options = Inr r))"
proof
  show "(\<exists>e. interpretReading spread placedCards allCards combinationRules options = Inl e) \<longleftrightarrow>
      (\<exists>pc\<in>set placedCards. cardId pc \<notin> card_id ` set allCards \<or>
          position pc \<notin> pos_index ` set (spread_positions spread))"
    unfolding interpretReading_Inl_iff map_throwing_Inl_iff interpretPosition_Inl_iff
      buildCardMap_None find_None_index ..
  show "(\<exists>e. interpretReading spread placedCards allCards combinationRules options = Inl e) \<longleftrightarrow>
      \<not> (\<exists>r. interpretReading spread placedCards allCards combinationRules options = Inr r)"
    by (cases "interpretReading spread placedCards allCards combinationRules options") auto
qed

theorem interpretReading_fails_iff_witness:
  "(\<exists>e. interpretReading ex_spread ex_unknown_card ex_cards [] None = Inl e) \<and>
   \<not> (\<exists>r. interpretReading ex_spread ex_unknown_card ex_cards [] None = Inr r) \<and>
   (\<exists>r. interpretReading ex_spread ex_placed ex_cards [] None = Inr r)"
proof -
  have bad: "\<exists>pc\<in>set ex_unknown_card. cardId pc \<notin> card_id ` set ex_cards \<or>
          position pc \<notin> pos_index ` set (spread_positions ex_spread)"
    by (simp add: ex_defs)
  have good: "\<not> (\<exists>pc\<in>set ex_placed. cardId pc \<notin> card_id ` set ex_cards \<or>
          position pc \<notin> pos_index ` set (spread_positions ex_spread))"
    by (simp add: ex_defs)
  from bad good
    interpretReading_fails_iff [of ex_spread ex_unknown_card ex_cards "[]" None]
    interpretReading_fails_iff [of ex_spread ex_placed ex_cards "[]" None]
  show ?thesis by blast
qed

subsection \<open>The base interpretation\<close>

text \<open>
  Claim C3.  The base interpretation of an upright card is its upright texts; of a
  reversed card in strong mode, its reversed texts; of a reversed card in soft mode, the
  reversed short text followed by \<open>'' (blocked or internal)''\<close> and the reversed long text
  followed by the sentence that names the card.  The mode is soft when the options, or
  the mode in them, are left out: \<open>interpretReading\<close> then returns what it returns in
  soft mode.
\<close>

theorem base_interpretation_texts:
  "getBaseInterpretation tc Upright mode = (uprightShort tc, uprightLong tc) \<and>
   getBaseInterpretation tc Reversed Strong = (reversedShort tc, reversedLong tc) \<and>
   getBaseInterpretation tc Reversed Soft =
     (reversedShort tc @ '' (blocked or internal)'',
      reversedLong tc @ '' The energy of '' @ card_name tc @
        '' is present but may be blocked, internalized, or manifesting in a subtle way.'') \<and>
   reversalMode_of None = Soft \<and>
   reversalMode_of (Some \<lparr> reversalMode = None \<rparr>) = Soft \<and>
   reversalMode_of (Some \<lparr> reversalMode = Some m \<rparr>) = m \<and>
   interpretReading spread placedCards allCards combinationRules None =
     interpretReading spread placedCards allCards combinationRules
       (Some \<lparr> reversalMode = Some Soft \<rparr>) \<and>
   interpretReading spread placedCards allCards combinationRules
       (Some \<lparr> reversalMode = None \<rparr>) =
     interpretReading spread placedCards allCards combinationRules
       (Some \<lparr> reversalMode = Some Soft \<rparr>)"
  by (simp add: reversalMode_of_def interpretReading_def)

subsection \<open>The empty reading, the rule catalog\<close>

text \<open>
  Claim C4.  With no placed cards \<open>interpretReading\<close> succeeds: no positions, both counts
  zero, no dominant suit, no keywords, hints or actions, and a summary that is the closing
  sentence alone.
\<close>

theorem empty_reading:
  "interpretReading spread [] allCards combinationRules options =
     Inr \<lparr> positions = [],
           overallSummary =
             ''Trust your intuition as you interpret these messages for your path forward.'',
           keywords_top = [],
           confidenceHints = [],
           suggestedActions = [],
           dominantSuit = None,
           majorArcanaCount = 0,
           reversedCount = 0 \<rparr>"
  by (simp add: interpretReading_def generateOverallAnalysis_empty)

text \<open>
  Claim C8.  The result of \<open>interpretReading\<close>, a failure included, is the same for any
  two rule catalogs.
\<close>

theorem combinationRules_ignored:
  "interpretReading spread placedCards allCards rules1 options =
   interpretReading spread placedCards allCards rules2 options"
proof -
  have "generateOverallAnalysis pcs cm rules1 = generateOverallAnalysis pcs cm rules2" for pcs cm
    by (simp add: generateOverallAnalysis_def)
  then show ?thesis
    by (simp add: interpretReading_def Let_def cong: sum.case_cong)
qed

subsection \<open>Tallies in insertion order, the stable sort\<close>

lemma first_index_less: "k \<in> set xs \<Longrightarrow> first_index xs k < length xs"
  by (induction xs) auto

lemma first_index_append_in: "k \<in> set xs \<Longrightarrow> first_index (xs @ ys) k = first_index xs k"
  by (induction xs) auto

lemma first_index_append_notin:
  "k \<notin> set xs \<Longrightarrow> first_index (xs @ ys) k = length xs + first_index ys k"
  by (induction xs) auto

lemma map_of_bump:
  "map_of (bump m k) = (map_of m)(k \<mapsto> (case map_of m k of None \<Rightarrow> 0 | Some n \<Rightarrow> n) + 1)"
  by (simp add: bump_def update_conv')

lemma keys_bump:
  "map fst (bump m k) = (if k \<in> set (map fst m) then map fst m else map fst m @ [k])"
  by (simp add: bump_def update_keys)

lemma tally_map_of:
  "map_of (foldl bump [] xs) k = (if k \<in> set xs then Some (count_list xs k) else None)"
  by (induction xs rule: rev_induct) (auto simp: map_of_bump)

lemma tally_keys_set: "set (map fst (foldl bump [] xs)) = set xs"
proof -
  have "fst ` set (foldl bump [] xs) = dom (map_of (foldl bump [] xs))"
    by (simp add: dom_map_of_conv_image_fst)
  also have "\<dots> = set xs"
    by (auto simp: dom_def tally_map_of)
  finally show ?thesis by simp
qed

lemma tally_keys_sorted:
  "sorted_wrt (\<lambda>a b. first_index xs a < first_index xs b) (map fst (foldl bump [] xs))"
proof (induction xs rule: rev_induct)
  case Nil
  then show ?case by simp
next
  case (snoc x xs)
  let ?m = "foldl bump [] xs"
  have old: "sorted_wrt (\<lambda>a b. first_index (xs @ [x]) a < first_index (xs @ [x]) b) (map fst ?m)"
    by (rule sorted_wrt_mono_rel [OF _ snoc.IH])
       (simp add: tally_keys_set first_index_append_in del: set_map)
  show ?case
  proof (cases "x \<in> set xs")
    case True
    with old show ?thesis
      by (simp add: keys_bump tally_keys_set del: set_map)
  next
    case False
    have "first_index (xs @ [x]) a < first_index (xs @ [x]) x" if "a \<in> set xs" for a
      using that False by (simp add: first_index_append_in first_index_append_notin first_index_less)
    with old False show ?thesis
      by (simp add: keys_bump tally_keys_set sorted_wrt_append del: set_map)
  qed
qed

lemma tally_distinct: "distinct (map fst (foldl bump [] xs))"
proof -
  have "sorted_wrt (\<lambda>a b. a \<noteq> b) (map fst (foldl bump [] xs))"
    by (rule sorted_wrt_mono_rel [OF _ tally_keys_sorted]) auto
  then show ?thesis by (simp add: distinct_conv_nth sorted_wrt_iff_nth_less) (metis linorder_neqE_nat)
qed

lemma tally_entry:
  assumes "p \<in> set (foldl bump [] xs)"
  shows "fst p \<in> set xs \<and> snd p = count_list xs (fst p)"
proof -
  have "map_of (foldl bump [] xs) (fst p) = Some (snd p)"
    using map_of_is_SomeI [OF tally_distinct, of "fst p" "snd p" xs] assms by simp
  then show ?thesis
    by (simp add: tally_map_of split: if_splits)
qed

lemma set_insert_by: "set (insert_by cmp x ys) = insert x (set ys)"
  by (induction ys) auto

lemma length_insert_by: "length (insert_by cmp x ys) = Suc (length ys)"
  by (induction ys) auto

lemma set_js_sort: "set (js_sort cmp xs) = set xs"
  by (induction xs) (auto simp: js_sort_def set_insert_by)

lemma length_js_sort: "length (js_sort cmp xs) = length xs"
  by (induction xs) (auto simp: js_sort_def length_insert_by)

lemma js_sort_Cons: "js_sort cmp (x # xs) = insert_by cmp x (js_sort cmp xs)"
  by (simp add: js_sort_def)

lemma insert_by_sorted:
  assumes "sorted_wrt Q ys"
      and "\<forall>y\<in>set ys. (cmp x y \<le> 0 \<longrightarrow> Q x y) \<and> (\<not> cmp x y \<le> 0 \<longrightarrow> Q y x)"
      and "\<And>a b c. Q a b \<Longrightarrow> Q b c \<Longrightarrow> Q a c"
  shows "sorted_wrt Q (insert_by cmp x ys)"
  using assms(1,2)
proof (induction ys)
  case Nil
  then show ?case by simp
next
  case (Cons y ys)
  show ?case
  proof (cases "cmp x y \<le> 0")
    case True
    with Cons.prems have "Q x y" by simp
    moreover have "\<forall>z\<in>set ys. Q y z" using Cons.prems(1) by simp
    ultimately have "\<forall>z\<in>set ys. Q x z" using assms(3) by blast
    with True \<open>Q x y\<close> Cons.prems(1) show ?thesis by simp
  next
    case False
    with Cons.prems have "Q y x" by simp
    moreover have "sorted_wrt Q (insert_by cmp x ys)"
      using Cons by simp
    ultimately show ?thesis using False Cons.prems(1) by (simp add: set_insert_by)
  qed
qed

lemma js_sort_sorted:
  assumes "sorted_wrt P xs"
      and "\<And>a b. a \<in> set xs \<Longrightarrow> b \<in> set xs \<Longrightarrow> P a b \<Longrightarrow>
             (cmp a b \<le> 0 \<longrightarrow> Q a b) \<and> (\<not> cmp a b \<le> 0 \<longrightarrow> Q b a)"
      and "\<And>a b c. Q a b \<Longrightarrow> Q b c \<Longrightarrow> Q a c"
  shows "sorted_wrt Q (js_sort cmp xs)"
  using assms(1,2)
proof (induction xs)
  case Nil
  then show ?case by (simp add: js_sort_def)
next
  case (Cons x xs)
  have 1: "sorted_wrt Q (js_sort cmp xs)"
    using Cons by simp
  have 2: "\<forall>y\<in>set (js_sort cmp xs). (cmp x y \<le> 0 \<longrightarrow> Q x y) \<and> (\<not> cmp x y \<le> 0 \<longrightarrow> Q y x)"
    using Cons.prems by (simp add: set_js_sort)
  show ?case
    unfolding js_sort_Cons
    by (rule insert_by_sorted [where Q = Q and cmp = cmp and x = x, OF 1 2], erule assms(3), assumption)
qed

lemma ranked_sorted: "sorted_wrt (ranks_before xs) (ranked xs)"
proof -
  let ?P = "\<lambda>p q :: string \<times> nat. first_index xs (fst p) < first_index xs (fst q)"
  let ?Q = "\<lambda>p q :: string \<times> nat. snd q < snd p \<or> (snd p = snd q \<and> ?P p q)"
  have P: "sorted_wrt ?P (foldl bump [] xs)"
    using tally_keys_sorted [of xs] by (simp add: sorted_wrt_map)
  have "sorted_wrt ?Q (js_sort by_count_desc (foldl bump [] xs))"
    by (rule js_sort_sorted [OF P]) (auto simp: by_count_desc_def)
  then have "sorted_wrt (\<lambda>p q. ranks_before xs (fst p) (fst q)) (js_sort by_count_desc (foldl bump [] xs))"
    by (rule sorted_wrt_mono_rel [rotated]) (auto simp: set_js_sort ranks_before_def dest!: tally_entry)
  then show ?thesis by (simp add: sorted_wrt_map)
qed

lemma set_ranked: "set (ranked xs) = set xs"
  using tally_keys_set [of xs] by (simp add: set_js_sort)

lemma ranks_before_irrefl: "\<not> ranks_before xs a a"
  by (simp add: ranks_before_def)

lemma sorted_wrt_irrefl_distinct:
  "sorted_wrt R xs \<Longrightarrow> (\<And>a. \<not> R a a) \<Longrightarrow> distinct xs"
  by (induction xs) auto

lemma distinct_ranked: "distinct (ranked xs)"
  using ranked_sorted ranks_before_irrefl by (rule sorted_wrt_irrefl_distinct)

lemma length_ranked: "length (ranked xs) = card (set xs)"
proof -
  have "card (set (ranked xs)) = length (ranked xs)"
    by (rule distinct_card [OF distinct_ranked])
  then show ?thesis by (simp only: set_ranked)
qed


lemma suitCounts_tally: "suitCounts cards = foldl bump [] (List.map_filter truthy_suit cards)"
proof -
  have "foldl (\<lambda>m tc. case truthy_suit tc of None \<Rightarrow> m | Some s \<Rightarrow> bump m s) m cards =
        foldl bump m (List.map_filter truthy_suit cards)" for m
    by (induction cards arbitrary: m) (auto split: option.splits)
  then show ?thesis by (simp add: suitCounts_def)
qed

lemma truthy_suits_nonempty: "s \<in> set (List.map_filter truthy_suit cards) \<Longrightarrow> s \<noteq> []"
  by (auto simp: map_filter_def truthy_suit_def split: option.splits if_splits)

lemma analysis_dominantSuit:
  "an_dominantSuit (generateOverallAnalysis pcs cm rules) =
     (case ranked (List.map_filter truthy_suit (resolvedCards pcs cm)) of
        [] \<Rightarrow> None | s # _ \<Rightarrow> Some s)"
  by (simp add: generateOverallAnalysis_def Let_def suitCounts_tally split: list.splits)

lemma analysis_keywords:
  "an_keywords (generateOverallAnalysis pcs cm rules) =
     take 5 (ranked (concat (map card_keywords (resolvedCards pcs cm))))"
  by (simp add: generateOverallAnalysis_def Let_def keywordCounts_def take_map)

lemma ranked_head:
  "(xs = [] \<longrightarrow> ranked xs = []) \<and>
   (xs \<noteq> [] \<longrightarrow> (\<exists>s rest. ranked xs = s # rest \<and> s \<in> set xs \<and>
       (\<forall>t\<in>set xs. t \<noteq> s \<longrightarrow> ranks_before xs s t)))"
proof (cases "ranked xs")
  case Nil
  with set_ranked [of xs] show ?thesis by simp
next
  case (Cons s rest)
  with set_ranked [of xs] have xs: "set xs = insert s (set rest)" by simp
  from Cons ranked_sorted [of xs] have "\<forall>t\<in>set rest. ranks_before xs s t" by simp
  with xs Cons show ?thesis by auto
qed

lemma ranked_top:
  "distinct (take n (ranked xs)) \<and> set (take n (ranked xs)) \<subseteq> set xs \<and>
   length (take n (ranked xs)) = min n (card (set xs)) \<and>
   sorted_wrt (ranks_before xs) (take n (ranked xs)) \<and>
   (\<forall>k\<in>set xs - set (take n (ranked xs)). \<forall>k'\<in>set (take n (ranked xs)). ranks_before xs k' k)"
proof -
  let ?R = "ranked xs"
  have split: "?R = take n ?R @ drop n ?R" by simp
  have s: "sorted_wrt (ranks_before xs) (take n ?R @ drop n ?R)"
    using ranked_sorted [of xs] by simp
  have "set xs = set (take n ?R) \<union> set (drop n ?R)"
    using set_ranked [of xs] set_append [of "take n ?R" "drop n ?R"] by simp
  then have rest: "set xs - set (take n ?R) \<subseteq> set (drop n ?R)" by auto
  have "\<forall>k'\<in>set (take n ?R). \<forall>k\<in>set (drop n ?R). ranks_before xs k' k"
    using s unfolding sorted_wrt_append by blast
  with rest have top: "\<forall>k\<in>set xs - set (take n ?R). \<forall>k'\<in>set (take n ?R). ranks_before xs k' k"
    by blast
  have "set (take n ?R) \<subseteq> set xs"
    using set_take_subset [of n ?R] set_ranked [of xs] by simp
  moreover have "sorted_wrt (ranks_before xs) (take n ?R)"
    using s unfolding sorted_wrt_append by blast
  moreover have "length (take n ?R) = min n (card (set xs))"
    by (simp only: length_take length_ranked min.commute)
  ultimately show ?thesis
    using top distinct_ranked [of xs] by simp
qed

lemma ranked_Nil: "ranked [] = []"
  by (simp add: js_sort_def)

lemma ranked_nonempty:
  assumes "xs \<noteq> []"
  shows "\<exists>s rest. ranked xs = s # rest \<and> s \<in> set xs \<and>
       (\<forall>t\<in>set xs. t \<noteq> s \<longrightarrow> ranks_before xs s t)"
proof -
  from ranked_head [of xs] have "xs \<noteq> [] \<longrightarrow> (\<exists>s rest. ranked xs = s # rest \<and> s \<in> set xs \<and>
       (\<forall>t\<in>set xs. t \<noteq> s \<longrightarrow> ranks_before xs s t))" by (rule conjunct2)
  from this assms show ?thesis by (rule mp)
qed

lemma ranked_hd_in: "ranked xs = s # rest \<Longrightarrow> s \<in> set xs"
proof -
  assume "ranked xs = s # rest"
  then have "s \<in> set (ranked xs)" by (simp only: list.set_intros)
  then show ?thesis by (simp only: set_ranked)
qed

subsection \<open>The analysis of a reading\<close>

lemma interpretReading_succeeds:
  assumes "\<forall>pc\<in>set pcs. cardId pc \<in> card_id ` set allCards \<and>
             position pc \<in> pos_index ` set (spread_positions spread)"
  shows "\<exists>r. interpretReading spread pcs allCards rules options = Inr r"
proof -
  have "\<not> (\<exists>e. interpretReading spread pcs allCards rules options = Inl e)"
    unfolding interpretReading_Inl_iff map_throwing_Inl_iff interpretPosition_Inl_iff
      buildCardMap_None find_None_index
    using assms by blast
  then show ?thesis
    by (cases "interpretReading spread pcs allCards rules options") auto
qed

lemma analysis_summary:
  "an_summary (generateOverallAnalysis pcs cm rules) =
     generateSummary (an_majorArcanaCount (generateOverallAnalysis pcs cm rules))
       (an_dominantSuit (generateOverallAnalysis pcs cm rules))
       (an_reversedCount (generateOverallAnalysis pcs cm rules)) (length pcs)"
  by (simp add: generateOverallAnalysis_def Let_def)

lemma analysis_reversedCount_le:
  "an_reversedCount (generateOverallAnalysis pcs cm rules) \<le> length pcs"
  by (simp add: generateOverallAnalysis_def Let_def)

lemma analysis_dominantSuit_in:
  assumes "an_dominantSuit (generateOverallAnalysis pcs cm rules) = Some s"
  shows "s \<in> set (List.map_filter truthy_suit (resolvedCards pcs cm))"
proof (cases "ranked (List.map_filter truthy_suit (resolvedCards pcs cm))")
  case Nil
  with assms show ?thesis
    by (simp only: analysis_dominantSuit list.case option.distinct)
next
  case (Cons t rest)
  with assms have "t = s"
    by (simp only: analysis_dominantSuit list.case option.inject)
  with ranked_hd_in [OF Cons] show ?thesis by simp
qed

lemma analysis_dominantSuit_nonempty:
  "an_dominantSuit (generateOverallAnalysis pcs cm rules) \<noteq> Some []"
  using analysis_dominantSuit_in [of pcs cm rules "[]"]
    truthy_suits_nonempty [of "[]" "resolvedCards pcs cm"] by blast

lemma generateSummary_clauses:
  assumes "domSuit \<noteq> Some []" and "reversedCnt \<le> totalCards"
  shows "generateSummary majorCount domSuit reversedCnt totalCards =
     (if 3 \<le> majorCount
      then ''This reading reveals significant life changes and spiritual themes. ''
      else if 1 \<le> majorCount
      then ''Important life lessons and personal growth are highlighted. ''
      else []) @
     (case domSuit of None \<Rightarrow> [] | Some s \<Rightarrow> ''The focus is on '' @ getSuitTheme s @ ''. '') @
     (if 1 \<le> reversedCnt \<and> real totalCards / 2 \<le> real reversedCnt
      then ''Many reversed cards suggest internal work and reflection are needed. ''
      else []) @
     ''Trust your intuition as you interpret these messages for your path forward.''"
proof -
  have a: "(case domSuit of None \<Rightarrow> [] | Some s \<Rightarrow>
              if s = [] then [] else ''The focus is on '' @ getSuitTheme s @ ''. '') =
           (case domSuit of None \<Rightarrow> [] | Some s \<Rightarrow> ''The focus is on '' @ getSuitTheme s @ ''. '')"
    using assms(1) by (cases domSuit) auto
  have b: "(reversedCnt \<noteq> 0 \<and> totalCards \<noteq> 0 \<and> real totalCards / 2 \<le> real reversedCnt) =
           (1 \<le> reversedCnt \<and> real totalCards / 2 \<le> real reversedCnt)"
    using assms(2) by auto
  show ?thesis
    unfolding generateSummary_def Let_def a b ..
qed

subsection \<open>The example reading\<close>

lemma ex_resolvedCards:
  "resolvedCards ex_placed (buildCardMap ex_cards) = [ex_wands3, ex_cups2]"
  by (simp add: resolvedCards_def buildCardMap_def ex_placed_def ex_cards_def
      ex_fool_def ex_cups2_def ex_wands3_def)

lemma ex_suits: "List.map_filter truthy_suit [ex_wands3, ex_cups2] = [''wands'', ''cups'']"
  by (simp add: truthy_suit_def ex_wands3_def ex_cups2_def)

lemma ex_kws: "concat (map card_keywords [ex_wands3, ex_cups2]) = [''love'', ''travel'', ''love'', ''freedom'']"
  by (simp add: ex_wands3_def ex_cups2_def)

lemma ex_ranked_suits: "ranked [''wands'', ''cups''] = [''wands'', ''cups'']"
  by (simp add: bump_def js_sort_def by_count_desc_def)

lemma ex_ranked_kws: "ranked [''love'', ''travel'', ''love'', ''freedom''] = [''love'', ''travel'', ''freedom'']"
  by (simp add: bump_def js_sort_def by_count_desc_def)

lemma ex_counts:
  "an_majorArcanaCount (generateOverallAnalysis ex_placed (buildCardMap ex_cards) rules) = 0"
  "an_reversedCount (generateOverallAnalysis ex_placed (buildCardMap ex_cards) rules) = 1"
  by (simp_all add: generateOverallAnalysis_def Let_def ex_resolvedCards)
     (simp_all add: ex_wands3_def ex_cups2_def ex_placed_def)

lemma ex_reading_succeeds: "\<exists>r. interpretReading ex_spread ex_placed ex_cards [] None = Inr r"
  by (rule interpretReading_succeeds) (simp add: ex_defs)

lemma ex_reading_fields:
  assumes "interpretReading ex_spread ex_placed ex_cards [] None = Inr r"
  shows "majorArcanaCount r = 0" and "reversedCount r = 1"
  using interpretReading_Inr(5,6) [OF assms] by (simp_all only: ex_counts)

lemma claimed_summary_empty:
  "claimed_summary 0 None 0 0 =
     ''Many reversed cards suggest internal work and reflection are needed. '' @
     ''Trust your intuition as you interpret these messages for your path forward.''"
  by (simp add: claimed_summary_def)

lemma ex_empty_result_fields:
  "overallSummary ex_empty_result =
     ''Trust your intuition as you interpret these messages for your path forward.''"
  "majorArcanaCount ex_empty_result = 0" "dominantSuit ex_empty_result = None"
  "reversedCount ex_empty_result = 0"
  by (simp_all add: ex_empty_result_def)

lemma ex_kw_set:
  "set [''love'', ''travel'', ''love'', ''freedom''] = {''love'', ''travel'', ''freedom''}"
  by auto

lemma ex_kw_card: "min 5 (card {''love'', ''travel'', ''freedom''}) = 3"
  by simp

lemma ex_cups_not_first: "\<not> ranks_before [''wands'', ''cups''] ''cups'' ''wands''"
  by (simp add: ranks_before_def)

subsection \<open>The summary\<close>

text \<open>
  Claim C5, as stated, fails on the empty reading: with no placed cards the reversed count
  0 is at least half of the total 0, so the summary as the specification words it
  (\<open>claimed_summary\<close>) has the clause on reversed cards, and the summary of the code is
  the closing sentence alone.
\<close>

theorem overallSummary_counterexample:
  "interpretReading ex_spread [] ex_cards [] None = Inr ex_empty_result \<and>
   overallSummary ex_empty_result \<noteq>
     claimed_summary (majorArcanaCount ex_empty_result) (dominantSuit ex_empty_result)
       (reversedCount ex_empty_result) (length ([] :: PlacedCard list))"
proof
  show "interpretReading ex_spread [] ex_cards [] None = Inr ex_empty_result"
    by (simp add: interpretReading_def generateOverallAnalysis_empty ex_empty_result_def)
  show "overallSummary ex_empty_result \<noteq>
     claimed_summary (majorArcanaCount ex_empty_result) (dominantSuit ex_empty_result)
       (reversedCount ex_empty_result) (length ([] :: PlacedCard list))"
    unfolding ex_empty_result_fields list.size claimed_summary_empty by simp
qed

text \<open>
  Claim C5, amended.  The summary of a result is the concatenation, in this order, of the
  clause for three or more Major Arcana, else the clause for one or more; the clause on
  the theme of the dominant suit when there is one; the clause on reversed cards when
  the reversed count is at least one and at least half of the number of placed cards
  (compared exactly, without rounding); and the closing sentence.
\<close>

theorem overallSummary_clauses:
  assumes "interpretReading spread placedCards allCards combinationRules options = Inr r"
  shows "overallSummary r =
     (if 3 \<le> majorArcanaCount r
      then ''This reading reveals significant life changes and spiritual themes. ''
      else if 1 \<le> majorArcanaCount r
      then ''Important life lessons and personal growth are highlighted. ''
      else []) @
     (case dominantSuit r of
        None \<Rightarrow> []
      | Some s \<Rightarrow> ''The focus is on '' @ getSuitTheme s @ ''. '') @
     (if 1 \<le> reversedCount r \<and> real (length placedCards) / 2 \<le> real (reversedCount r)
      then ''Many reversed cards suggest internal work and reflection are needed. ''
      else []) @
     ''Trust your intuition as you interpret these messages for your path forward.''"
proof -
  let ?a = "generateOverallAnalysis placedCards (buildCardMap allCards) combinationRules"
  note r = interpretReading_Inr [OF assms]
  have 1: "overallSummary r =
          generateSummary (majorArcanaCount r) (dominantSuit r) (reversedCount r)
            (length placedCards)"
    unfolding r(2,4,5,6) by (rule analysis_summary)
  have 2: "dominantSuit r \<noteq> Some []"
    unfolding r(4) by (rule analysis_dominantSuit_nonempty)
  have 3: "reversedCount r \<le> length placedCards"
    unfolding r(6) by (rule analysis_reversedCount_le)
  show ?thesis
    unfolding 1 by (rule generateSummary_clauses [OF 2 3])
qed

theorem overallSummary_clauses_witness:
  "\<exists>r. interpretReading ex_spread ex_placed ex_cards [] None = Inr r \<and>
       majorArcanaCount r = 0 \<and> reversedCount r = 1 \<and> length ex_placed = 2 \<and>
       overallSummary r =
         (case dominantSuit r of
            None \<Rightarrow> []
          | Some s \<Rightarrow> ''The focus is on '' @ getSuitTheme s @ ''. '') @
         ''Many reversed cards suggest internal work and reflection are needed. '' @
         ''Trust your intuition as you interpret these messages for your path forward.''"
proof -
  from ex_reading_succeeds obtain r where
    r: "interpretReading ex_spread ex_placed ex_cards [] None = Inr r" ..
  note f = ex_reading_fields [OF r]
  have len: "length ex_placed = 2" by (simp add: ex_placed_def)
  have c1: "\<not> (3::nat) \<le> 0" "\<not> (1::nat) \<le> 0" by simp_all
  have c2: "(1::nat) \<le> 1 \<and> real 2 / 2 \<le> real 1" by simp
  have "overallSummary r =
         (case dominantSuit r of
            None \<Rightarrow> []
          | Some s \<Rightarrow> ''The focus is on '' @ getSuitTheme s @ ''. '') @
         ''Many reversed cards suggest internal work and reflection are needed. '' @
         ''Trust your intuition as you interpret these messages for your path forward.''"
    using overallSummary_clauses [OF r]
    unfolding f len by (simp only: c1 c2 simp_thms if_True if_False append_Nil)
  with r f len show ?thesis by blast
qed

subsection \<open>The dominant suit and the keywords\<close>

text \<open>
  Claim C6.  Let \<open>suits\<close> be the suits of the resolved cards that have one, in the order
  placed, and \<open>kws\<close> the keywords of the resolved cards, flattened in that order.  With no
  suit there is no dominant suit; otherwise the dominant suit is a suit that ranks before
  every other one: it occurs more often, or as often and is met first.  The keywords of
  the result are distinct keywords of \<open>kws\<close>, five of them or all if there are fewer,
  each ranking before the next, and each ranking before every keyword left out.
\<close>

theorem dominantSuit_and_keywords:
  assumes "interpretReading spread placedCards allCards combinationRules options = Inr r"
      and "suits = List.map_filter truthy_suit (resolvedCards placedCards (buildCardMap allCards))"
      and "kws = concat (map card_keywords (resolvedCards placedCards (buildCardMap allCards)))"
  shows "(suits = [] \<longrightarrow> dominantSuit r = None) \<and>
         (suits \<noteq> [] \<longrightarrow>
            (\<exists>s\<in>set suits. dominantSuit r = Some s \<and>
               (\<forall>t\<in>set suits. t \<noteq> s \<longrightarrow> ranks_before suits s t))) \<and>
         distinct (keywords_top r) \<and>
         set (keywords_top r) \<subseteq> set kws \<and>
         length (keywords_top r) = min 5 (card (set kws)) \<and>
         sorted_wrt (ranks_before kws) (keywords_top r) \<and>
         (\<forall>k\<in>set kws - set (keywords_top r). \<forall>k'\<in>set (keywords_top r). ranks_before kws k' k)"
proof -
  note r = interpretReading_Inr [OF assms(1)]
  have dom: "dominantSuit r = (case ranked suits of [] \<Rightarrow> None | s # _ \<Rightarrow> Some s)"
    unfolding r(4) assms(2) by (rule analysis_dominantSuit)
  have kw: "keywords_top r = take 5 (ranked kws)"
    unfolding r(3) assms(3) by (rule analysis_keywords)
  have 1: "suits = [] \<longrightarrow> dominantSuit r = None"
  proof
    assume "suits = []"
    then have "ranked suits = []" by (simp only: ranked_Nil)
    then show "dominantSuit r = None" unfolding dom by (simp only: list.case)
  qed
  have 2: "suits \<noteq> [] \<longrightarrow>
            (\<exists>s\<in>set suits. dominantSuit r = Some s \<and>
               (\<forall>t\<in>set suits. t \<noteq> s \<longrightarrow> ranks_before suits s t))"
  proof
    assume "suits \<noteq> []"
    from ranked_nonempty [OF this] obtain s rest where
      s: "ranked suits = s # rest" and s2: "s \<in> set suits" and
      s3: "\<forall>t\<in>set suits. t \<noteq> s \<longrightarrow> ranks_before suits s t" by (elim exE conjE)
    from s have "dominantSuit r = Some s" unfolding dom by (simp only: list.case)
    with s3 have "dominantSuit r = Some s \<and>
               (\<forall>t\<in>set suits. t \<noteq> s \<longrightarrow> ranks_before suits s t)" by (rule conjI [rotated])
    with s2 show "\<exists>s\<in>set suits. dominantSuit r = Some s \<and>
               (\<forall>t\<in>set suits. t \<noteq> s \<longrightarrow> ranks_before suits s t)" by (rule bexI [rotated])
  qed
  note top = ranked_top [of 5 kws, folded kw]
  from conjI [OF 1 conjI [OF 2 top]] show ?thesis .
qed

theorem dominantSuit_and_keywords_witness:
  "\<exists>r. interpretReading ex_spread ex_placed ex_cards [] None = Inr r \<and>
       dominantSuit r = Some ''wands'' \<and>
       distinct (keywords_top r) \<and> length (keywords_top r) = 3 \<and>
       set (keywords_top r) \<subseteq> {''love'', ''travel'', ''freedom''} \<and>
       sorted_wrt (ranks_before [''love'', ''travel'', ''love'', ''freedom'']) (keywords_top r)"
proof -
  from ex_reading_succeeds obtain r where
    r: "interpretReading ex_spread ex_placed ex_cards [] None = Inr r" ..
  have suits: "[''wands'', ''cups''] =
      List.map_filter truthy_suit (resolvedCards ex_placed (buildCardMap ex_cards))"
    by (simp only: ex_resolvedCards ex_suits)
  have kws: "[''love'', ''travel'', ''love'', ''freedom''] =
      concat (map card_keywords (resolvedCards ex_placed (buildCardMap ex_cards)))"
    by (simp only: ex_resolvedCards ex_kws)
  note t = dominantSuit_and_keywords [OF r suits kws]
  have ne: "[''wands'', ''cups''] \<noteq> []" by simp
  from t have "[''wands'', ''cups''] \<noteq> [] \<longrightarrow>
      (\<exists>s\<in>set [''wands'', ''cups'']. dominantSuit r = Some s \<and>
         (\<forall>t\<in>set [''wands'', ''cups'']. t \<noteq> s \<longrightarrow> ranks_before [''wands'', ''cups''] s t))"
    by (elim conjE)
  from this ne have "\<exists>s\<in>set [''wands'', ''cups'']. dominantSuit r = Some s \<and>
         (\<forall>t\<in>set [''wands'', ''cups'']. t \<noteq> s \<longrightarrow> ranks_before [''wands'', ''cups''] s t)"
    by (rule mp)
  then obtain s where s1: "s \<in> set [''wands'', ''cups'']" and s2: "dominantSuit r = Some s"
      and s3: "\<forall>t\<in>set [''wands'', ''cups'']. t \<noteq> s \<longrightarrow> ranks_before [''wands'', ''cups''] s t"
    by (elim bexE conjE)
  have "s = ''wands''"
  proof (rule ccontr)
    assume n: "s \<noteq> ''wands''"
    with s1 have c: "s = ''cups''" by simp
    have "''wands'' \<in> set [''wands'', ''cups'']" by simp
    with s3 have "''wands'' \<noteq> s \<longrightarrow> ranks_before [''wands'', ''cups''] s ''wands''" by (rule bspec)
    with n have "ranks_before [''wands'', ''cups''] s ''wands''" by simp
    with c ex_cups_not_first show False by simp
  qed
  with s2 have d: "dominantSuit r = Some ''wands''" by simp
  note t2 = t [THEN conjunct2, THEN conjunct2]
  note k = t2 [THEN conjunct1] t2 [THEN conjunct2, THEN conjunct1]
    t2 [THEN conjunct2, THEN conjunct2, THEN conjunct1]
    t2 [THEN conjunct2, THEN conjunct2, THEN conjunct2, THEN conjunct1]
  from k(2) have k2: "set (keywords_top r) \<subseteq> {''love'', ''travel'', ''freedom''}"
    by (simp only: ex_kw_set)
  from k(3) have k3: "length (keywords_top r) = 3"
    by (simp only: ex_kw_set ex_kw_card)
  from r d k(1) k3 k2 k(4) show ?thesis
    by (intro exI [of _ r] conjI)
qed

subsection \<open>The adjacency set\<close>

text \<open>
  Claim C7, as stated, fails where two placed cards carry the same card id: the second
  is another placed card, one position away from the first, and is not in the adjacency
  set of the first.
\<close>

theorem adjacency_counterexample:
  "ex_dup_second \<in> set ex_dup_placed \<and> ex_dup_second \<noteq> ex_dup_first \<and>
   \<bar>position ex_dup_second - position ex_dup_first\<bar> \<le> 1 \<and>
   ex_dup_second \<notin> set (getAdjacentCards ex_dup_placed ex_dup_first ex_spread)"
  by (simp add: ex_dup_placed_def ex_dup_first_def ex_dup_second_def ex_dup_third_def
      getAdjacentCards_def)

text \<open>
  Claim C7, amended.  For placed cards \<open>a\<close> and \<open>b\<close> of a reading, \<open>a\<close> is in the
  adjacency set of \<open>b\<close> exactly when their card ids differ and their positions differ by
  at most 1; the relation is symmetric; and when no two placed cards share a card id, the
  adjacency set of \<open>b\<close> is all other placed cards whose position differs by at most 1.
\<close>

theorem adjacency_by_cardId_symmetric:
  assumes "a \<in> set placedCards" and "b \<in> set placedCards"
  shows "(a \<in> set (getAdjacentCards placedCards b spread) \<longleftrightarrow>
            cardId a \<noteq> cardId b \<and> \<bar>position a - position b\<bar> \<le> 1) \<and>
         (a \<in> set (getAdjacentCards placedCards b spread) \<longleftrightarrow>
            b \<in> set (getAdjacentCards placedCards a spread)) \<and>
         (distinct (map cardId placedCards) \<longrightarrow>
            (a \<in> set (getAdjacentCards placedCards b spread) \<longleftrightarrow>
               a \<noteq> b \<and> \<bar>position a - position b\<bar> \<le> 1))"
proof -
  have 1: "a \<in> set (getAdjacentCards placedCards b spread) \<longleftrightarrow>
            cardId a \<noteq> cardId b \<and> \<bar>position a - position b\<bar> \<le> 1"
    using assms(1) by (simp add: getAdjacentCards_def)
  have 2: "b \<in> set (getAdjacentCards placedCards a spread) \<longleftrightarrow>
            cardId b \<noteq> cardId a \<and> \<bar>position b - position a\<bar> \<le> 1"
    using assms(2) by (simp add: getAdjacentCards_def)
  have 3: "cardId a \<noteq> cardId b \<longleftrightarrow> a \<noteq> b" if "distinct (map cardId placedCards)"
    using that assms by (auto simp: distinct_map inj_on_def)
  from 1 2 3 show ?thesis by (auto simp: abs_minus_commute)
qed

theorem adjacency_by_cardId_symmetric_witness:
  "ex_dup_second \<notin> set (getAdjacentCards ex_dup_placed ex_dup_first ex_spread) \<and>
   ex_dup_first \<notin> set (getAdjacentCards ex_dup_placed ex_dup_second ex_spread) \<and>
   ex_placed ! 0 \<in> set (getAdjacentCards ex_placed (ex_placed ! 1) ex_spread) \<and>
   ex_placed ! 1 \<in> set (getAdjacentCards ex_placed (ex_placed ! 0) ex_spread)"
proof -
  have d: "ex_dup_first \<in> set ex_dup_placed" "ex_dup_second \<in> set ex_dup_placed"
    by (simp_all add: ex_dup_placed_def)
  have p: "ex_placed ! 0 \<in> set ex_placed" "ex_placed ! 1 \<in> set ex_placed"
    by (simp_all add: ex_placed_def)
  have same: "cardId ex_dup_second = cardId ex_dup_first"
    by (simp add: ex_dup_first_def ex_dup_second_def)
  have near: "cardId (ex_placed ! 0) \<noteq> cardId (ex_placed ! 1) \<and>
              \<bar>position (ex_placed ! 0) - position (ex_placed ! 1)\<bar> \<le> 1"
    by (simp add: ex_placed_def)
  from adjacency_by_cardId_symmetric [OF d(2) d(1), of ex_spread]
       adjacency_by_cardId_symmetric [OF p(1) p(2), of ex_spread] same near
  show ?thesis by blast
qed

text \<open>
  Claim C10.  A placed card with the card id of the current card is never in its
  adjacency set, whatever its position; the adjacency set, and with it the adjacency
  influence (the suit, Major Arcana and reversed clusterings), is the same as if every
  placed card with that card id were left out of the reading.
\<close>

theorem same_cardId_never_adjacent:
  "(cardId a = cardId currentCard \<longrightarrow>
      a \<notin> set (getAdjacentCards placedCards currentCard spread)) \<and>
   getAdjacentCards placedCards currentCard spread =
     getAdjacentCards (filter (\<lambda>pc. cardId pc \<noteq> cardId currentCard) placedCards)
       currentCard spread \<and>
   getAdjacencyInfluence placedCards currentCard cardMap spread =
     getAdjacencyInfluence (filter (\<lambda>pc. cardId pc \<noteq> cardId currentCard) placedCards)
       currentCard cardMap spread"
proof -
  have eq: "getAdjacentCards placedCards currentCard spread =
     getAdjacentCards (filter (\<lambda>pc. cardId pc \<noteq> cardId currentCard) placedCards)
       currentCard spread"
    by (simp add: getAdjacentCards_def conj_commute cong: conj_cong)
  have "getAdjacencyInfluence placedCards currentCard cardMap spread =
     getAdjacencyInfluence (filter (\<lambda>pc. cardId pc \<noteq> cardId currentCard) placedCards)
       currentCard cardMap spread"
    unfolding getAdjacencyInfluence_def eq [symmetric] ..
  with eq show ?thesis by (simp add: getAdjacentCards_def)
qed

theorem same_cardId_never_adjacent_witness:
  "ex_dup_first \<notin> set (getAdjacentCards ex_dup_placed ex_dup_second ex_spread) \<and>
   ex_dup_third \<notin> set (getAdjacentCards ex_dup_placed ex_dup_second ex_spread) \<and>
   getAdjacencyInfluence ex_dup_placed ex_dup_second (buildCardMap ex_cards) ex_spread = []"
proof -
  have ids: "cardId ex_dup_first = cardId ex_dup_second" "cardId ex_dup_third = cardId ex_dup_second"
    by (simp_all add: ex_dup_first_def ex_dup_second_def ex_dup_third_def)
  have f: "filter (\<lambda>pc. cardId pc \<noteq> cardId ex_dup_second) ex_dup_placed = []"
    by (simp add: ex_dup_placed_def ex_dup_first_def ex_dup_second_def ex_dup_third_def)
  have e: "getAdjacencyInfluence [] ex_dup_second (buildCardMap ex_cards) ex_spread = []"
    by (simp add: getAdjacencyInfluence_def getAdjacentCards_def Let_def split: option.splits)
  from same_cardId_never_adjacent [of ex_dup_first ex_dup_second ex_dup_placed ex_spread "buildCardMap ex_cards"]
       same_cardId_never_adjacent [of ex_dup_third ex_dup_second ex_dup_placed ex_spread "buildCardMap ex_cards"]
       ids f e
  show ?thesis by (simp add: getAdjacentCards_def)
qed

subsection \<open>The dealer\<close>

lemma dealFrom_entries:
  "i + length ps \<le> length cards \<Longrightarrow>
   \<exists>out. dealFrom rnd cards i ps = Inr out \<and> length out = length ps \<and>
     (\<forall>k<length ps. cardId (out ! k) = card_id (cards ! (i + k)) \<and>
                     position (out ! k) = pos_index (ps ! k))"
proof (induction ps arbitrary: i)
  case Nil
  then show ?case by simp
next
  case (Cons p ps)
  then have "Suc i + length ps \<le> length cards" by simp
  from Cons.IH [OF this] obtain rest where
    rest: "dealFrom rnd cards (Suc i) ps = Inr rest" "length rest = length ps"
      "\<forall>k<length ps. cardId (rest ! k) = card_id (cards ! (Suc i + k)) \<and>
                     position (rest ! k) = pos_index (ps ! k)" by blast
  let ?e = "\<lparr> cardId = card_id (cards ! i),
              orientation = (if 7 / 10 < rnd i then Reversed else Upright),
              position = pos_index p \<rparr>"
  have v: "dealFrom rnd cards i (p # ps) = Inr (?e # rest)"
    using Cons.prems rest(1) by simp
  have "\<forall>k<length (p # ps). cardId ((?e # rest) ! k) = card_id (cards ! (i + k)) \<and>
                     position ((?e # rest) ! k) = pos_index ((p # ps) ! k)"
    using rest(3) by (auto simp: nth_Cons split: nat.splits)
  with v rest(2) show ?case by simp
qed

text \<open>
  Claim C9.  For any draws, \<open>dealCards\<close> returns, without error, as many placed cards as
  the shorter of the shuffled cards and the spread positions; entry \<open>i\<close> has the id of
  shuffled card \<open>i\<close> and the index of spread position \<open>i\<close>.
\<close>

theorem dealCards_zips_shortest:
  "\<exists>out. dealCards rnd shuffledCards spread = Inr out \<and>
     length out = min (length shuffledCards) (length (spread_positions spread)) \<and>
     (\<forall>i<length out. cardId (out ! i) = card_id (shuffledCards ! i) \<and>
                      position (out ! i) = pos_index (spread_positions spread ! i))"
proof -
  let ?ps = "take (length shuffledCards) (spread_positions spread)"
  have "0 + length ?ps \<le> length shuffledCards" by simp
  from dealFrom_entries [OF this, of rnd] obtain out where
    out: "dealFrom rnd shuffledCards 0 ?ps = Inr out" "length out = length ?ps"
      "\<forall>k<length ?ps. cardId (out ! k) = card_id (shuffledCards ! (0 + k)) \<and>
                     position (out ! k) = pos_index (?ps ! k)" by blast
  from out(2) have len: "length out = min (length shuffledCards) (length (spread_positions spread))"
    by (simp add: min.commute)
  from out(2,3) have "\<forall>i<length out. cardId (out ! i) = card_id (shuffledCards ! i) \<and>
                      position (out ! i) = pos_index (spread_positions spread ! i)"
    by simp
  with out(1) len show ?thesis by (auto simp: dealCards_def)
qed

theorem dealCards_zips_shortest_witness:
  "\<exists>out. dealCards (\<lambda>i. 0) ex_two_cards ex_spread = Inr out \<and> length out = 2 \<and>
     cardId (out ! 0) = ''major-0'' \<and> position (out ! 0) = 0 \<and>
     cardId (out ! 1) = ''cups-2'' \<and> position (out ! 1) = 1"
proof -
  from dealCards_zips_shortest [of "\<lambda>i. 0" ex_two_cards ex_spread] obtain out where
    out: "dealCards (\<lambda>i. 0) ex_two_cards ex_spread = Inr out"
      "length out = min (length ex_two_cards) (length (spread_positions ex_spread))"
      "\<forall>i<length out. cardId (out ! i) = card_id (ex_two_cards ! i) \<and>
                      position (out ! i) = pos_index (spread_positions ex_spread ! i)" by blast
  from out(2) have len: "length out = 2" by (simp add: ex_two_cards_def ex_spread_def)
  with out(3) have "cardId (out ! 0) = card_id (ex_two_cards ! 0) \<and>
      position (out ! 0) = pos_index (spread_positions ex_spread ! 0) \<and>
      cardId (out ! 1) = card_id (ex_two_cards ! 1) \<and>
      position (out ! 1) = pos_index (spread_positions ex_spread ! 1)" by simp
  then have "cardId (out ! 0) = ''major-0'' \<and> position (out ! 0) = 0 \<and>
     cardId (out ! 1) = ''cups-2'' \<and> position (out ! 1) = 1"
    by (simp add: ex_two_cards_def ex_spread_def ex_fool_def ex_cups2_def)
  with out(1) len show ?thesis by blast
qed

end
